theory Spec2Isabelle
  imports Complex_Main "HOL-Library.Multiset"
begin

section \<open>Values of the host language\<close>

text \<open>
  The dashboard is JavaScript. Numbers are taken as reals (prices) and integers (day
  counts, weekdays); the rounding of IEEE doubles is not modelled. A value read out of a
  bookings object is only ever tested for truthiness, so the JSON values are kept just
  far enough apart to decide that test.
\<close>

datatype jsval =
    JUndefined
  | JNull
  | JBool bool
  | JNum real
  | JStr string
  | JObject

fun truthy :: "jsval \<Rightarrow> bool" where
  "truthy JUndefined = False"
| "truthy JNull = False"
| "truthy (JBool b) = b"
| "truthy (JNum x) = (x \<noteq> 0)"
| "truthy (JStr s) = (s \<noteq> [])"
| "truthy JObject = True"

text \<open>\<open>a || b\<close>: the left operand when it is truthy, the right one otherwise.\<close>

definition js_or :: "jsval \<Rightarrow> jsval \<Rightarrow> jsval" where
  "js_or a b = (if truthy a then a else b)"

text \<open>\<open>obj[key]\<close> on a plain object: \<open>undefined\<close> for a key that is not there.\<close>

definition get_prop :: "(string \<rightharpoonup> jsval) \<Rightarrow> string \<Rightarrow> jsval" where
  "get_prop obj k = (case obj k of None \<Rightarrow> JUndefined | Some v \<Rightarrow> v)"

section \<open>Calendar dates and their formats\<close>

text \<open>
  A \<open>Date\<close> as the component observes it, in local time: \<open>getFullYear\<close>,
  \<open>getMonth\<close> (0 is January) and \<open>getDate\<close> (the day of the month).
\<close>

record date =
  getFullYear :: nat
  getMonth :: nat
  getDate :: nat

text \<open>
  \<open>getDay\<close> of date-fns: the weekday of the Gregorian date, 0 for Sunday up to 6 for
  Saturday, computed from the year (from 1 on), the month index (0 to 11, as
  \<open>getMonth\<close> always is) and the day.
\<close>

definition month_offsets :: "int list" where
  "month_offsets = [0, 3, 2, 5, 0, 3, 5, 1, 4, 6, 2, 4]"

definition getDay :: "date \<Rightarrow> int" where
  "getDay d =
     (let y = (if getMonth d < 2 then int (getFullYear d) - 1 else int (getFullYear d))
      in (y + y div 4 - y div 100 + y div 400 + month_offsets ! getMonth d + int (getDate d)) mod 7)"

definition digit_char :: "nat \<Rightarrow> char" where
  "digit_char n = ''0123456789'' ! n"

fun toString :: "nat \<Rightarrow> string" where
  "toString n = (if n < 10 then [digit_char n] else toString (n div 10) @ [digit_char (n mod 10)])"

declare toString.simps [simp del]

definition padStart :: "nat \<Rightarrow> string \<Rightarrow> string" where
  "padStart k s = replicate (k - length s) (CHR ''0'') @ s"

text \<open>The three date-fns patterns the component uses.\<close>

definition format_yyyy :: "date \<Rightarrow> string" where
  "format_yyyy d = padStart 4 (toString (getFullYear d))"

definition format_MM :: "date \<Rightarrow> string" where
  "format_MM d = padStart 2 (toString (getMonth d + 1))"

definition format_dd :: "date \<Rightarrow> string" where
  "format_dd d = padStart 2 (toString (getDate d))"

definition format_slash :: "date \<Rightarrow> string" where
  "format_slash d = format_yyyy d @ ''/'' @ format_MM d @ ''/'' @ format_dd d"

definition format_dash :: "date \<Rightarrow> string" where
  "format_dash d = format_yyyy d @ ''-'' @ format_MM d @ ''-'' @ format_dd d"

section \<open>Fleet units and closure settings\<close>

text \<open>
  A price tier \<open>{ days, to, price }\<close>. \<open>days\<close> and \<open>to\<close> hold either the
  literal \<open>'default'\<close> or a whole number of days, which \<open>parseInt\<close> reads back
  unchanged; \<open>price\<close> is what \<open>parseFloat\<close> reads.
\<close>

datatype bound = Default | Days int

record tier =
  days :: bound
  to :: bound
  price :: real

text \<open>
  A bike as \<open>extractBikeMetadata\<close> builds it. \<open>pricing\<close> and \<open>bookings\<close>
  are \<open>None\<close> when the property is missing (or otherwise falsy). The fields
  \<open>stock\<close> and \<open>metafields\<close>, which the table never reads, are left out.
\<close>

record bike =
  handle :: string
  productId :: string
  variantId :: string
  name :: string
  imageUrl :: "string option"
  pricing :: "tier list option"
  bookings :: "(string \<rightharpoonup> jsval) option"
  isLoading :: bool

text \<open>
  \<open>closures\<close> lists the weekdays the shop is shut; \<open>disabledDatesGlobal\<close> maps
  a year key, then a month key, to the closed days of that month.
\<close>

record globalSettings =
  closures :: "int list"
  disabledDatesGlobal :: "string \<rightharpoonup> (string \<rightharpoonup> int list)"

datatype status = loading | booked | closed | half | available

section \<open>The table component\<close>

subsection \<open>getStatus\<close>

text \<open>
  \<open>disabledDatesGlobal[year]?.[month]?.includes(dayNumeric)\<close>: undefined, hence
  falsy, as soon as one of the two lookups finds nothing.
\<close>

definition isHoliday :: "globalSettings \<Rightarrow> date \<Rightarrow> bool" where
  "isHoliday gs d =
     (case disabledDatesGlobal gs (format_yyyy d) of
        None \<Rightarrow> False
      | Some months \<Rightarrow>
          (case months (toString (getMonth d + 1)) of
             None \<Rightarrow> False
           | Some ds \<Rightarrow> int (getDate d) \<in> set ds))"

definition isStoreClosed :: "globalSettings \<Rightarrow> date \<Rightarrow> bool" where
  "isStoreClosed gs d = (getDay d \<in> set (closures gs) \<or> isHoliday gs d)"

definition isBooked :: "(string \<rightharpoonup> jsval) \<Rightarrow> date \<Rightarrow> jsval" where
  "isBooked bk d =
     (let yearMonthDay = format_slash d
      in js_or (get_prop bk yearMonthDay)
           (js_or (get_prop bk (yearMonthDay @ ''_start''))
                  (get_prop bk (yearMonthDay @ ''_end''))))"

definition isHalfDay :: "date \<Rightarrow> bool" where
  "isHalfDay d = (getDay d = 6)"

definition getStatus :: "globalSettings \<Rightarrow> bike \<Rightarrow> date \<Rightarrow> status" where
  "getStatus gs b d =
     (if isLoading b then loading
      else case bookings b of
        None \<Rightarrow> loading
      | Some bk \<Rightarrow>
          if truthy (isBooked bk d) then booked
          else if isStoreClosed gs d then closed
          else if isHalfDay d then half
          else available)"

subsection \<open>getPriceForDuration\<close>

text \<open>The predicate handed to \<open>find\<close>; \<open>to = 'default'\<close> stands for no upper end.\<close>

definition tier_applies :: "int \<Rightarrow> tier \<Rightarrow> bool" where
  "tier_applies n p =
     (case days p of
        Default \<Rightarrow> False
      | Days from \<Rightarrow>
          (case to p of
             Default \<Rightarrow> n \<ge> from
           | Days till \<Rightarrow> n \<ge> from \<and> n \<le> till))"

text \<open>
  \<open>parseInt(tier.days) >= 7\<close>. On \<open>'default'\<close> the parse is \<open>NaN\<close> and the
  comparison false.
\<close>

definition weekly :: "bound \<Rightarrow> bool" where
  "weekly s = (case s of Default \<Rightarrow> False | Days tierStart \<Rightarrow> tierStart \<ge> 7)"

definition getPriceForDuration :: "bike \<Rightarrow> int \<Rightarrow> real" where
  "getPriceForDuration b n =
     (case pricing b of
        None \<Rightarrow> 0
      | Some ps \<Rightarrow>
          if ps = [] then 0
          else
            (case find (tier_applies n) ps of
               Some t \<Rightarrow>
                 if weekly (days t) then price t * (real_of_int n / 7)
                 else price t
             | None \<Rightarrow>
                 (case find (\<lambda>p. days p = Default) ps of
                    Some defaultTier \<Rightarrow> price defaultTier * real_of_int n
                  | None \<Rightarrow> 0)))"

subsection \<open>sortedBikes\<close>

text \<open>
  \<open>Array.prototype.sort\<close> with a comparator is a stable sort (ECMAScript 2019 onwards):
  an element moves in front of another one only when the comparator puts it strictly
  first. Insertion from the right end of the array is such a sort.
\<close>

fun insert_js :: "('a \<Rightarrow> 'a \<Rightarrow> real) \<Rightarrow> 'a \<Rightarrow> 'a list \<Rightarrow> 'a list" where
  "insert_js cmp x [] = [x]"
| "insert_js cmp x (y # ys) = (if cmp x y \<le> 0 then x # y # ys else y # insert_js cmp x ys)"

fun sort_js :: "('a \<Rightarrow> 'a \<Rightarrow> real) \<Rightarrow> 'a list \<Rightarrow> 'a list" where
  "sort_js cmp [] = []"
| "sort_js cmp (x # xs) = insert_js cmp x (sort_js cmp xs)"

text \<open>
  The comparator of the table. \<open>localeCompare\<close> belongs to the host and is a
  parameter.
\<close>

definition compare_bikes ::
  "(string \<Rightarrow> string \<Rightarrow> real) \<Rightarrow> int \<Rightarrow> string \<Rightarrow> bike \<Rightarrow> bike \<Rightarrow> real" where
  "compare_bikes localeCompare duration sortOrder a b =
     (if sortOrder = ''asc'' \<or> sortOrder = ''desc'' then
        (let priceA = getPriceForDuration a duration;
             priceB = getPriceForDuration b duration
         in if sortOrder = ''asc'' then priceA - priceB else priceB - priceA)
      else localeCompare (name a) (name b))"

text \<open>
  The filter step: \<open>dates\<close> are the columns of the table, \<open>selectedDates\<close> the
  set of \<open>yyyy-MM-dd\<close> keys the user has toggled on.
\<close>

definition qualifies :: "globalSettings \<Rightarrow> string set \<Rightarrow> bike \<Rightarrow> date \<Rightarrow> bool" where
  "qualifies gs selectedDates b d =
     (if format_dash d \<notin> selectedDates then False
      else (let st = getStatus gs b d in st = available \<or> st = half))"

definition filteredBikes ::
  "globalSettings \<Rightarrow> date list \<Rightarrow> string set \<Rightarrow> bike list \<Rightarrow> bike list" where
  "filteredBikes gs dates selectedDates bikes =
     (if selectedDates \<noteq> {} then
        filter (\<lambda>b. list_ex (qualifies gs selectedDates b) dates) bikes
      else bikes)"

definition sortedBikes ::
  "(string \<Rightarrow> string \<Rightarrow> real) \<Rightarrow> globalSettings \<Rightarrow> date list \<Rightarrow> string set \<Rightarrow>
   int \<Rightarrow> string \<Rightarrow> bike list \<Rightarrow> bike list" where
  "sortedBikes localeCompare gs dates selectedDates duration sortOrder bikes =
     sort_js (compare_bikes localeCompare duration sortOrder)
       (filteredBikes gs dates selectedDates bikes)"

subsection \<open>The earlier revision of getStatus\<close>

text \<open>
  The first revision of the table (the one fed by the deprecated
  \<open>fetchAvailabilityData\<close>, whose bikes always arrive with their bookings) has the
  same classifier without the loading test: \<open>bike.bookings && (\<dots>)\<close> is falsy
  on a bike without bookings.
\<close>

definition getStatus_legacy :: "globalSettings \<Rightarrow> bike \<Rightarrow> date \<Rightarrow> status" where
  "getStatus_legacy gs b d =
     (if (case bookings b of None \<Rightarrow> False | Some bk \<Rightarrow> truthy (isBooked bk d)) then booked
      else if isStoreClosed gs d then closed
      else if isHalfDay d then half
      else available)"

section \<open>Building the fleet from the catalog\<close>

text \<open>
  The catalog is \<open>exampleData.data\<close>, read in the order of \<open>Object.entries\<close>. A
  product may be \<open>null\<close>; its \<open>handle\<close> and \<open>id\<close> may be missing; its
  \<open>variantStock\<close> is \<open>None\<close> when \<open>newMetafields.value\<close> does not parse to an
  object that has one. A variant's data may be \<open>null\<close>.
\<close>

record variantData =
  prices :: "tier list option"

record product =
  product_handle :: "string option"
  product_id :: "string option"
  variantStock :: "(string \<times> variantData option) list option"

text \<open>\<open>id.split('/').pop()\<close>: what follows the last slash.\<close>

definition last_segment :: "string \<Rightarrow> string" where
  "last_segment s = rev (takeWhile (\<lambda>c. c \<noteq> CHR ''/'') (rev s))"

text \<open>\<open>replace(pat, rep)\<close> with a string pattern: the first occurrence only.\<close>

fun replace_first :: "string \<Rightarrow> string \<Rightarrow> string \<Rightarrow> string" where
  "replace_first pat rep [] = (if pat = [] then rep else [])"
| "replace_first pat rep (c # cs) =
     (if take (length pat) (c # cs) = pat then rep @ drop (length pat) (c # cs)
      else c # replace_first pat rep cs)"

text \<open>\<open>toUpperCase\<close> on the ASCII letters a handle is made of.\<close>

definition upper_char :: "char \<Rightarrow> char" where
  "upper_char c =
     (let k = (of_char c :: nat) in if 97 \<le> k \<and> k \<le> 122 then char_of (k - 32) else c)"

definition display_name :: "string \<Rightarrow> string" where
  "display_name h =
     map upper_char
       (replace_first '' rental'' [] (map (\<lambda>c. if c = CHR ''-'' then CHR '' '' else c) h))"

text \<open>
  The object pushed for one variant; \<open>imageMap[handle] || null\<close> is \<open>None\<close> for a
  handle without an image and for an empty address. Reading \<open>variantData.prices\<close> of a null variant,
  \<open>product.id.split\<close> without an id and \<open>product.handle.replace\<close> without a handle
  each throw a TypeError: the result is \<open>None\<close>.
\<close>

definition build_bike ::
  "(string \<rightharpoonup> string) \<Rightarrow> product \<Rightarrow> string \<Rightarrow> variantData option \<Rightarrow> bike option" where
  "build_bike imageMap p vid vd =
     (case vd of
        None \<Rightarrow> None
      | Some v \<Rightarrow>
          (case product_id p of
             None \<Rightarrow> None
           | Some i \<Rightarrow>
               (case product_handle p of
                  None \<Rightarrow> None
                | Some h \<Rightarrow>
                    Some \<lparr> handle = h,
                           productId = last_segment i,
                           variantId = vid,
                           name = display_name h,
                           imageUrl =
                             (case imageMap h of
                                None \<Rightarrow> None
                              | Some src \<Rightarrow> if src = [] then None else Some src),
                           pricing = Some (case prices v of None \<Rightarrow> [] | Some ps \<Rightarrow> ps),
                           bookings = None,
                           isLoading = True \<rparr>)))"

text \<open>
  The inner \<open>forEach\<close> over the variants of one product, on the pair of \<open>bikes\<close>
  and \<open>seenVariantIds\<close>. The id is put into the set before the bike is built; an
  exception leaves the loop, is caught around it, and both keep what they hold.
\<close>

fun add_variants ::
  "(string \<rightharpoonup> string) \<Rightarrow> product \<Rightarrow> (string \<times> variantData option) list \<Rightarrow>
   bike list \<times> string set \<Rightarrow> bike list \<times> string set" where
  "add_variants imageMap p [] st = st"
| "add_variants imageMap p ((vid, vd) # rest) (bikes, seen) =
     (if vid = ''product'' then add_variants imageMap p rest (bikes, seen)
      else if vid \<in> seen then add_variants imageMap p rest (bikes, seen)
      else
        (case build_bike imageMap p vid vd of
           None \<Rightarrow> (bikes, insert vid seen)
         | Some b \<Rightarrow> add_variants imageMap p rest (bikes @ [b], insert vid seen)))"

text \<open>The outer \<open>forEach\<close> over the products.\<close>

fun add_products ::
  "(string \<rightharpoonup> string) \<Rightarrow> (string \<times> product option) list \<Rightarrow>
   bike list \<times> string set \<Rightarrow> bike list \<times> string set" where
  "add_products imageMap [] st = st"
| "add_products imageMap ((key, None) # rest) st = add_products imageMap rest st"
| "add_products imageMap ((key, Some p) # rest) st =
     (case variantStock p of
        None \<Rightarrow> add_products imageMap rest st
      | Some variants \<Rightarrow> add_products imageMap rest (add_variants imageMap p variants st))"

definition extractBikeMetadata ::
  "(string \<times> product option) list \<Rightarrow> (string \<rightharpoonup> string) \<Rightarrow> bike list" where
  "extractBikeMetadata exampleData imageMap = fst (add_products imageMap exampleData ([], {}))"

text \<open>
  \<open>fetchAvailabilityData\<close> extends every extracted bike with the bookings fetched for
  it; the request is a parameter. (Its first revision runs the same two loops inline.)
\<close>

definition fetchAvailabilityData ::
  "(bike \<Rightarrow> (string \<rightharpoonup> jsval) option) \<Rightarrow> (string \<times> product option) list \<Rightarrow>
   (string \<rightharpoonup> string) \<Rightarrow> bike list" where
  "fetchAvailabilityData fetchBookings exampleData imageMap =
     map (\<lambda>b. b\<lparr>bookings := fetchBookings b, isLoading := False\<rparr>)
       (extractBikeMetadata exampleData imageMap)"

section \<open>The notions of the specification\<close>

text \<open>
  The tiers of a unit, a missing list read as the empty one, and the selection rule of
  the price calculator in the words of its description: the start is a number, and
  \<open>start \<le> duration \<le> end\<close> with \<open>'default'\<close> as an end that is never exceeded.
\<close>

definition priceTiers :: "bike \<Rightarrow> tier list" where
  "priceTiers b = (case pricing b of None \<Rightarrow> [] | Some ps \<Rightarrow> ps)"

definition selects :: "int \<Rightarrow> tier \<Rightarrow> bool" where
  "selects n p =
     (\<exists>s. days p = Days s \<and> s \<le> n \<and> (to p = Default \<or> (\<exists>e. to p = Days e \<and> n \<le> e)))"

text \<open>Sample data: the tiers quoted in the project's documentation.\<close>

definition sample_tiers :: "tier list" where
  "sample_tiers =
     [\<lparr>days = Days 1, to = Days 6, price = 110\<rparr>,
      \<lparr>days = Days 7, to = Days 7, price = 160\<rparr>,
      \<lparr>days = Days 8, to = Days 14, price = 148\<rparr>,
      \<lparr>days = Default, to = Default, price = 50\<rparr>]"

definition sample_bike :: "string \<Rightarrow> tier list option \<Rightarrow> (string \<rightharpoonup> jsval) option \<Rightarrow> bool \<Rightarrow> bike" where
  "sample_bike vid ps bk l =
     \<lparr>handle = ''yamaha-nmax-155-rental'', productId = ''81'', variantId = vid,
      name = ''YAMAHA NMAX 155'', imageUrl = None, pricing = ps, bookings = bk, isLoading = l\<rparr>"

text \<open>
  The three keys under which a booking of a date may stand, and what it means for a
  bookings map to hold a booking of the date: a truthy value under one of them.
\<close>

definition booking_keys :: "date \<Rightarrow> string list" where
  "booking_keys d = [format_slash d, format_slash d @ ''_start'', format_slash d @ ''_end'']"

definition has_booking :: "(string \<rightharpoonup> jsval) \<Rightarrow> date \<Rightarrow> bool" where
  "has_booking bk d = (\<exists>k \<in> set (booking_keys d). \<exists>v. bk k = Some v \<and> truthy v)"

text \<open>
  The date stands in the holiday table: its year has an entry, that entry has one for
  its month (counted from 1), and the day of the month is listed there.
\<close>

definition holiday_entry :: "globalSettings \<Rightarrow> date \<Rightarrow> bool" where
  "holiday_entry gs d =
     (\<exists>months ds. disabledDatesGlobal gs (format_yyyy d) = Some months \<and>
        months (toString (getMonth d + 1)) = Some ds \<and> int (getDate d) \<in> set ds)"

text \<open>
  A selected date on which the unit is free: a column of the table whose key is in the
  selection and whose status for the unit is \<open>available\<close> or \<open>half\<close>.
\<close>

definition free_on_selected :: "globalSettings \<Rightarrow> date list \<Rightarrow> string set \<Rightarrow> bike \<Rightarrow> bool" where
  "free_on_selected gs dates selectedDates b =
     (\<exists>d \<in> set dates. format_dash d \<in> selectedDates \<and>
        (getStatus gs b d = available \<or> getStatus gs b d = half))"

text \<open>Sample data: a calendar day given by year, month (from 1) and day.\<close>

definition day_of :: "nat \<Rightarrow> nat \<Rightarrow> nat \<Rightarrow> date" where
  "day_of y m d = \<lparr>getFullYear = y, getMonth = m - 1, getDate = d\<rparr>"

definition sample_settings :: "int list \<Rightarrow> globalSettings" where
  "sample_settings cl =
     \<lparr>closures = cl, disabledDatesGlobal = [''2026'' \<mapsto> [''12'' \<mapsto> [25, 26]]]\<rparr>"

definition sample_week :: "date list" where
  "sample_week = [day_of 2026 2 6, day_of 2026 2 7, day_of 2026 2 8, day_of 2026 2 9]"

text \<open>
  The variant records of a catalog in source order, each with the product it stands
  under and the identifier it is filed under: the entries of every \<open>variantStock\<close>
  but the one named \<open>product\<close>, which is not a variant.
\<close>

definition variants_of ::
  "product \<Rightarrow> (string \<times> variantData option) list \<Rightarrow>
   (product \<times> string \<times> variantData option) list" where
  "variants_of p variants =
     map (\<lambda>(vid, vd). (p, vid, vd)) (filter (\<lambda>(vid, vd). vid \<noteq> ''product'') variants)"

definition variant_records ::
  "(string \<times> product option) list \<Rightarrow> (product \<times> string \<times> variantData option) list" where
  "variant_records exampleData =
     concat (map (\<lambda>(key, po).
        case po of
          None \<Rightarrow> []
        | Some p \<Rightarrow>
            (case variantStock p of
               None \<Rightarrow> []
             | Some variants \<Rightarrow> variants_of p variants)) exampleData)"

definition record_id :: "product \<times> string \<times> variantData option \<Rightarrow> string" where
  "record_id r = fst (snd r)"

text \<open>
  The set \<open>seenVariantIds\<close> as it stands when the products \<open>before\<close> have been
  gone through.
\<close>

definition seen_before :: "(string \<rightharpoonup> string) \<Rightarrow> (string \<times> product option) list \<Rightarrow> string set" where
  "seen_before imageMap before = snd (add_products imageMap before ([], {}))"

text \<open>
  The invariant of the two loops of the extraction: every bike pushed so far has its
  identifier in the set, and no two of them share one.
\<close>

definition distinct_acc :: "bike list \<times> string set \<Rightarrow> bool" where
  "distinct_acc st = (distinct (map variantId (fst st)) \<and> variantId ` set (fst st) \<subseteq> snd st)"

text \<open>Sample data: a product with one variant, whose data may be null.\<close>

definition sample_product :: "string \<Rightarrow> (string \<times> variantData option) list \<Rightarrow> product" where
  "sample_product h variants =
     \<lparr>product_handle = Some h, product_id = Some ''gid://shopify/Product/81'',
      variantStock = Some variants\<rparr>"

section \<open>The price for a duration\<close>

lemma tier_applies_selects: "tier_applies n p = selects n p"
  by (auto simp: tier_applies_def selects_def split: bound.splits)

lemma find_first:
  "\<forall>p \<in> set pre. \<not> P p \<Longrightarrow> P t \<Longrightarrow> find P (pre @ t # post) = Some t"
  by (induction pre) auto

lemma find_nothing: "\<forall>p \<in> set ps. \<not> P p \<Longrightarrow> find P ps = None"
  by (induction ps) auto

lemma price_of_found:
  assumes "pricing b = Some ps" and "find (tier_applies n) ps = Some t"
  shows "getPriceForDuration b n =
           (if weekly (days t) then price t * (real_of_int n / 7) else price t)"
proof -
  from assms(2) have "ps \<noteq> []" by auto
  with assms show ?thesis by (simp add: getPriceForDuration_def)
qed

lemma price_of_not_found:
  assumes "find (tier_applies n) (priceTiers b) = None"
  shows "getPriceForDuration b n =
           (case find (\<lambda>p. days p = Default) (priceTiers b) of
              Some defaultTier \<Rightarrow> price defaultTier * real_of_int n
            | None \<Rightarrow> 0)"
  using assms by (auto simp: getPriceForDuration_def priceTiers_def split: option.splits)

text \<open>
  C1. The tiers are scanned in order and the first one that selects the duration is used:
  if its start is 7 days or more the result is its price times \<open>duration / 7\<close>, a
  division of reals; if its start is below 7 the result is its price as it stands,
  whatever the duration within the tier. (A list that holds such a tier is not empty;
  the duration may be any integer.)
\<close>

theorem price_first_selected_tier:
  assumes "pricing b = Some (pre @ t # post)"
    and "\<forall>p \<in> set pre. \<not> selects n p"
    and "selects n t"
    and "days t = Days s"
  shows "getPriceForDuration b n = (if s \<ge> 7 then price t * (real_of_int n / 7) else price t)"
proof -
  have "find (tier_applies n) (pre @ t # post) = Some t"
    using assms(2,3) by (intro find_first) (simp_all add: tier_applies_selects)
  with assms(1) have "getPriceForDuration b n =
      (if weekly (days t) then price t * (real_of_int n / 7) else price t)"
    by (rule price_of_found)
  with assms(4) show ?thesis by (simp add: weekly_def)
qed

theorem price_first_selected_tier_witness:
  "getPriceForDuration (sample_bike ''v1'' (Some sample_tiers) None True) 10 = 148 * (10 / 7)
   \<and> getPriceForDuration (sample_bike ''v1'' (Some sample_tiers) None True) 3 = 110"
proof -
  let ?b = "sample_bike ''v1'' (Some sample_tiers) None True"
  let ?t1 = "\<lparr>days = Days 1, to = Days 6, price = 110::real\<rparr>"
  let ?t2 = "\<lparr>days = Days 7, to = Days 7, price = 160::real\<rparr>"
  let ?t3 = "\<lparr>days = Days 8, to = Days 14, price = 148::real\<rparr>"
  let ?t4 = "\<lparr>days = Default, to = Default, price = 50::real\<rparr>"
  have a: "getPriceForDuration ?b 10 = 148 * (10 / 7)"
    using price_first_selected_tier [of ?b "[?t1, ?t2]" ?t3 "[?t4]" 10 8]
    by (simp add: sample_bike_def sample_tiers_def selects_def)
  have b: "getPriceForDuration ?b 3 = 110"
    using price_first_selected_tier [of ?b "[]" ?t1 "[?t2, ?t3, ?t4]" 3 1]
    by (simp add: sample_bike_def sample_tiers_def selects_def)
  from a b show ?thesis by simp
qed

text \<open>
  C5. When no tier selects the duration, the first tier whose start is \<open>'default'\<close>
  gives \<open>price \<times> duration\<close>; when there is no such tier either the price is 0. A missing
  list and an empty list are the case of no tier at all. The calculator is a total
  function of a unit and a duration: none of its steps can throw on a unit whose tiers
  are tier records.
\<close>

theorem price_fallback:
  assumes "\<forall>p \<in> set (priceTiers b). \<not> selects n p"
  shows "(\<forall>pre dt post.
            priceTiers b = pre @ dt # post \<and> (\<forall>p \<in> set pre. days p \<noteq> Default) \<and>
            days dt = Default \<longrightarrow>
            getPriceForDuration b n = price dt * real_of_int n)
       \<and> ((\<forall>p \<in> set (priceTiers b). days p \<noteq> Default) \<longrightarrow> getPriceForDuration b n = 0)
       \<and> (pricing b = None \<or> pricing b = Some [] \<longrightarrow> getPriceForDuration b n = 0)"
proof -
  have "find (tier_applies n) (priceTiers b) = None"
    using assms by (intro find_nothing) (simp add: tier_applies_selects)
  then have eq: "getPriceForDuration b n =
      (case find (\<lambda>p. days p = Default) (priceTiers b) of
         Some defaultTier \<Rightarrow> price defaultTier * real_of_int n
       | None \<Rightarrow> 0)"
    by (rule price_of_not_found)
  have first: "getPriceForDuration b n = price dt * real_of_int n"
    if "priceTiers b = pre @ dt # post" "\<forall>p \<in> set pre. days p \<noteq> Default" "days dt = Default"
    for pre dt post
  proof -
    have "find (\<lambda>p. days p = Default) (pre @ dt # post) = Some dt"
      using that(2,3) by (intro find_first) simp_all
    with eq that(1) show ?thesis by simp
  qed
  have none: "getPriceForDuration b n = 0" if "\<forall>p \<in> set (priceTiers b). days p \<noteq> Default"
  proof -
    have "find (\<lambda>p. days p = Default) (priceTiers b) = None"
      using that by (intro find_nothing) simp
    with eq show ?thesis by simp
  qed
  have absent: "getPriceForDuration b n = 0" if "pricing b = None \<or> pricing b = Some []"
    using that by (auto simp: getPriceForDuration_def)
  from first none absent show ?thesis by blast
qed

theorem price_fallback_witness:
  "getPriceForDuration
     (sample_bike ''v1'' (Some [\<lparr>days = Days 7, to = Days 13, price = 160\<rparr>,
                               \<lparr>days = Default, to = Default, price = 50\<rparr>]) None True) 3 = 150
   \<and> getPriceForDuration
       (sample_bike ''v1'' (Some [\<lparr>days = Days 7, to = Days 13, price = 160\<rparr>]) None True) 3 = 0
   \<and> getPriceForDuration (sample_bike ''v1'' None None True) 3 = 0
   \<and> getPriceForDuration (sample_bike ''v1'' (Some []) None True) 3 = 0"
proof -
  let ?w = "\<lparr>days = Days 7, to = Days 13, price = 160::real\<rparr>"
  let ?d = "\<lparr>days = Default, to = Default, price = 50::real\<rparr>"
  let ?b1 = "sample_bike ''v1'' (Some [?w, ?d]) None True"
  let ?b2 = "sample_bike ''v1'' (Some [?w]) None True"
  let ?b3 = "sample_bike ''v1'' None None True"
  let ?b4 = "sample_bike ''v1'' (Some []) None True"
  have h1: "\<forall>p \<in> set (priceTiers ?b1). \<not> selects 3 p"
    by (simp add: priceTiers_def sample_bike_def selects_def)
  have h2: "\<forall>p \<in> set (priceTiers ?b2). \<not> selects 3 p"
    by (simp add: priceTiers_def sample_bike_def selects_def)
  have h3: "\<forall>p \<in> set (priceTiers ?b3). \<not> selects 3 p"
    by (simp add: priceTiers_def sample_bike_def)
  have h4: "\<forall>p \<in> set (priceTiers ?b4). \<not> selects 3 p"
    by (simp add: priceTiers_def sample_bike_def)
  have s1: "priceTiers ?b1 = [?w] @ ?d # [] \<and> (\<forall>p \<in> set [?w]. days p \<noteq> Default) \<and> days ?d = Default"
    by (simp add: priceTiers_def sample_bike_def)
  have a: "getPriceForDuration ?b1 3 = 150"
    using price_fallback [OF h1, THEN conjunct1, rule_format, OF s1] by simp
  have s2: "\<forall>p \<in> set (priceTiers ?b2). days p \<noteq> Default"
    by (simp add: priceTiers_def sample_bike_def)
  have b: "getPriceForDuration ?b2 3 = 0"
    using price_fallback [OF h2, THEN conjunct2, THEN conjunct1, THEN mp, OF s2] by simp
  have c: "getPriceForDuration ?b3 3 = 0"
    using price_fallback [OF h3, THEN conjunct2, THEN conjunct2] by (simp add: sample_bike_def)
  have d: "getPriceForDuration ?b4 3 = 0"
    using price_fallback [OF h4, THEN conjunct2, THEN conjunct2] by (simp add: sample_bike_def)
  from a b c d show ?thesis by simp
qed

text \<open>
  C9, as the code has it. A tier's price is taken as it is found, so the result is
  non-negative as far as the prices of the tiers are: with every tier price at least 0
  and a duration of at least 1 day, the price for the duration is at least 0.
\<close>

theorem price_nonneg:
  assumes "\<forall>p \<in> set (priceTiers b). 0 \<le> price p" and "1 \<le> n"
  shows "0 \<le> getPriceForDuration b n"
proof (cases "find (tier_applies n) (priceTiers b)")
  case None
  then have eq: "getPriceForDuration b n =
      (case find (\<lambda>p. days p = Default) (priceTiers b) of
         Some defaultTier \<Rightarrow> price defaultTier * real_of_int n
       | None \<Rightarrow> 0)"
    by (rule price_of_not_found)
  show ?thesis
  proof (cases "find (\<lambda>p. days p = Default) (priceTiers b)")
    case None
    with eq show ?thesis by simp
  next
    case (Some dt)
    then have "dt \<in> set (priceTiers b)" by (auto simp: find_Some_iff)
    with assms(1) have "0 \<le> price dt" by blast
    moreover from assms(2) have "0 \<le> real_of_int n" by simp
    ultimately show ?thesis using eq Some by simp
  qed
next
  case (Some t)
  then have mem: "t \<in> set (priceTiers b)" by (auto simp: find_Some_iff)
  with assms(1) have p: "0 \<le> price t" by blast
  from mem obtain ps where ps: "pricing b = Some ps" "priceTiers b = ps"
    by (cases "pricing b") (auto simp: priceTiers_def)
  with Some have "getPriceForDuration b n =
      (if weekly (days t) then price t * (real_of_int n / 7) else price t)"
    by (intro price_of_found) simp_all
  moreover from assms(2) have "0 \<le> real_of_int n / 7" by simp
  ultimately show ?thesis using p by simp
qed

theorem price_nonneg_witness:
  "0 \<le> getPriceForDuration (sample_bike ''v1'' (Some sample_tiers) None True) 14
   \<and> getPriceForDuration (sample_bike ''v1'' (Some sample_tiers) None True) 14 = 296"
proof -
  let ?b = "sample_bike ''v1'' (Some sample_tiers) None True"
  have h: "\<forall>p \<in> set (priceTiers ?b). 0 \<le> price p"
    by (simp add: priceTiers_def sample_bike_def sample_tiers_def)
  have "0 \<le> getPriceForDuration ?b 14"
    using price_nonneg [OF h, of 14] by simp
  moreover have "getPriceForDuration ?b 14 = 296"
    by (simp add: getPriceForDuration_def sample_bike_def sample_tiers_def
        tier_applies_def weekly_def)
  ultimately show ?thesis by simp
qed

text \<open>A tier with a negative price gives a negative result.\<close>

theorem price_negative_counterexample:
  "getPriceForDuration
     (sample_bike ''v1'' (Some [\<lparr>days = Days 1, to = Days 6, price = - 5\<rparr>]) None True) 1 = - 5"
  by (simp add: getPriceForDuration_def sample_bike_def tier_applies_def weekly_def)

section \<open>The status of a date\<close>

lemma truthy_js_or: "truthy (js_or a b) = (truthy a \<or> truthy b)"
  by (simp add: js_or_def)

lemma truthy_get_prop: "truthy (get_prop bk k) = (\<exists>v. bk k = Some v \<and> truthy v)"
  by (cases "bk k") (simp_all add: get_prop_def)

lemma truthy_isBooked: "truthy (isBooked bk d) = has_booking bk d"
  by (simp add: isBooked_def Let_def has_booking_def booking_keys_def truthy_js_or truthy_get_prop)

lemma isHoliday_entry: "isHoliday gs d = holiday_entry gs d"
  by (simp add: isHoliday_def holiday_entry_def split: option.splits)

lemma getStatus_loaded:
  assumes "\<not> isLoading b" and "bookings b = Some bk"
  shows "getStatus gs b d =
           (if has_booking bk d then booked
            else if getDay d \<in> set (closures gs) \<or> holiday_entry gs d then closed
            else if getDay d = 6 then half
            else available)"
  using assms
  by (simp add: getStatus_def truthy_isBooked isStoreClosed_def isHoliday_entry isHalfDay_def)

lemma getStatus_pending:
  assumes "isLoading b \<or> bookings b = None"
  shows "getStatus gs b d = loading"
  using assms by (auto simp: getStatus_def)

text \<open>Evaluating the sample data.\<close>

lemma sample_keys:
  "format_slash (day_of 2026 2 7) = ''2026/02/07''"
  "format_slash (day_of 2026 2 8) = ''2026/02/08''"
  "format_slash (day_of 2026 2 9) = ''2026/02/09''"
  "format_slash (day_of 2026 12 25) = ''2026/12/25''"
  "format_dash (day_of 2026 2 6) = ''2026-02-06''"
  "format_dash (day_of 2026 2 7) = ''2026-02-07''"
  "format_dash (day_of 2026 2 8) = ''2026-02-08''"
  "format_dash (day_of 2026 2 9) = ''2026-02-09''"
  by (simp_all add: format_slash_def format_dash_def format_yyyy_def format_MM_def
      format_dd_def padStart_def toString.simps digit_char_def day_of_def)

lemma sample_weekdays:
  "getDay (day_of 2026 2 6) = 5"
  "getDay (day_of 2026 2 7) = 6"
  "getDay (day_of 2026 2 8) = 0"
  "getDay (day_of 2026 2 9) = 1"
  "getDay (day_of 2026 12 25) = 5"
  by (simp_all add: getDay_def month_offsets_def day_of_def)

lemma sample_holidays:
  "holiday_entry (sample_settings cl) (day_of 2026 12 25)"
  "\<not> holiday_entry (sample_settings cl) (day_of 2026 2 6)"
  "\<not> holiday_entry (sample_settings cl) (day_of 2026 2 7)"
  "\<not> holiday_entry (sample_settings cl) (day_of 2026 2 8)"
  "\<not> holiday_entry (sample_settings cl) (day_of 2026 2 9)"
  by (simp_all add: holiday_entry_def sample_settings_def day_of_def format_yyyy_def
      padStart_def toString.simps digit_char_def)

lemma sample_closures: "closures (sample_settings cl) = cl"
  by (simp add: sample_settings_def)

text \<open>
  C2. For a unit that is not loading and has its bookings, the status is decided in this
  order: \<open>booked\<close> when the bookings map holds a booking of the date; else
  \<open>closed\<close> when the weekday is a closure day or the date stands in the holiday table;
  else \<open>half\<close> when the weekday is 6, a Saturday; else \<open>available\<close>. It is never
  \<open>loading\<close>.
\<close>

theorem status_by_precedence:
  assumes "\<not> isLoading b" and "bookings b = Some bk"
  shows "getStatus gs b d =
           (if has_booking bk d then booked
            else if getDay d \<in> set (closures gs) \<or> holiday_entry gs d then closed
            else if getDay d = 6 then half
            else available)
       \<and> getStatus gs b d \<noteq> loading"
proof -
  have eq: "getStatus gs b d =
           (if has_booking bk d then booked
            else if getDay d \<in> set (closures gs) \<or> holiday_entry gs d then closed
            else if getDay d = 6 then half
            else available)"
    using assms by (rule getStatus_loaded)
  then have "getStatus gs b d \<noteq> loading" by (simp split: if_splits)
  with eq show ?thesis by blast
qed

theorem status_by_precedence_witness:
  "getStatus (sample_settings [0])
     (sample_bike ''v1'' None (Some [''2026/02/09_start'' \<mapsto> JBool True]) False)
     (day_of 2026 2 7) = half
   \<and> getStatus (sample_settings [0])
     (sample_bike ''v1'' None (Some [''2026/02/09_start'' \<mapsto> JBool True]) False)
     (day_of 2026 2 8) = closed
   \<and> getStatus (sample_settings [0])
     (sample_bike ''v1'' None (Some [''2026/02/09_start'' \<mapsto> JBool True]) False)
     (day_of 2026 2 9) = booked
   \<and> getStatus (sample_settings [0])
     (sample_bike ''v1'' None (Some [''2026/02/09_start'' \<mapsto> JBool True]) False)
     (day_of 2026 12 25) = closed
   \<and> getStatus (sample_settings [0])
     (sample_bike ''v1'' None (Some [''2026/02/09_start'' \<mapsto> JBool True]) False)
     (day_of 2026 2 6) = available"
proof -
  let ?bk = "[''2026/02/09_start'' \<mapsto> JBool True]"
  let ?b = "sample_bike ''v1'' None (Some ?bk) False"
  let ?gs = "sample_settings [0]"
  have l: "\<not> isLoading ?b" and k: "bookings ?b = Some ?bk"
    by (simp_all add: sample_bike_def)
  have cl: "closures ?gs = [0]" by (simp add: sample_settings_def)
  have "format_slash (day_of 2026 2 6) = ''2026/02/06''"
    by (simp add: format_slash_def format_yyyy_def format_MM_def
      format_dd_def padStart_def toString.simps digit_char_def day_of_def)
  then have nb6: "\<not> has_booking ?bk (day_of 2026 2 6)"
    by (simp add: has_booking_def booking_keys_def)
  have nb: "\<not> has_booking ?bk (day_of 2026 2 7)" "\<not> has_booking ?bk (day_of 2026 2 8)"
    "has_booking ?bk (day_of 2026 2 9)" "\<not> has_booking ?bk (day_of 2026 12 25)"
    by (simp_all add: has_booking_def booking_keys_def sample_keys)
  have a: "getStatus ?gs ?b (day_of 2026 2 7) = half"
    using status_by_precedence [OF l k, of ?gs "day_of 2026 2 7"]
    by (simp add: nb cl sample_weekdays sample_holidays)
  have b: "getStatus ?gs ?b (day_of 2026 2 8) = closed"
    using status_by_precedence [OF l k, of ?gs "day_of 2026 2 8"]
    by (simp add: nb cl sample_weekdays sample_holidays)
  have c: "getStatus ?gs ?b (day_of 2026 2 9) = booked"
    using status_by_precedence [OF l k, of ?gs "day_of 2026 2 9"]
    by (simp add: nb)
  have d: "getStatus ?gs ?b (day_of 2026 12 25) = closed"
    using status_by_precedence [OF l k, of ?gs "day_of 2026 12 25"]
    by (simp add: nb cl sample_weekdays sample_holidays)
  have e: "getStatus ?gs ?b (day_of 2026 2 6) = available"
    using status_by_precedence [OF l k, of ?gs "day_of 2026 2 6"]
    by (simp add: nb6 cl sample_weekdays sample_holidays)
  from a b c d e show ?thesis by simp
qed

text \<open>
  The earlier revision of the classifier gives the same status on every unit that is not
  pending; it has no pending state of its own.
\<close>

lemma getStatus_legacy_agrees:
  assumes "\<not> isLoading b" and "bookings b = Some bk"
  shows "getStatus_legacy gs b d = getStatus gs b d"
  using assms by (simp add: getStatus_legacy_def getStatus_def)

lemma getStatus_legacy_not_loading: "getStatus_legacy gs b d \<noteq> loading"
  by (simp add: getStatus_legacy_def)

text \<open>
  C3, as the code has it. In the table component that knows the loading state (the
  classifier \<open>getStatus\<close> with the test of \<open>isLoading\<close> and of the bookings), a
  unit that is loading, or that has no bookings at all, is \<open>loading\<close> (the pending
  state) on every date, whatever its bookings map and the closure settings hold.
\<close>

theorem status_pending:
  assumes "isLoading b \<or> bookings b = None"
  shows "getStatus gs b d = loading"
  using assms by (rule getStatus_pending)

theorem status_pending_witness:
  "getStatus (sample_settings [0])
     (sample_bike ''v1'' None (Some [''2026/02/07'' \<mapsto> JBool True]) True)
     (day_of 2026 2 7) = loading
   \<and> getStatus (sample_settings [0]) (sample_bike ''v1'' None None False) (day_of 2026 2 8) = loading"
proof -
  have "getStatus (sample_settings [0])
     (sample_bike ''v1'' None (Some [''2026/02/07'' \<mapsto> JBool True]) True)
     (day_of 2026 2 7) = loading"
    by (rule status_pending) (simp add: sample_bike_def)
  moreover have "getStatus (sample_settings [0]) (sample_bike ''v1'' None None False)
     (day_of 2026 2 8) = loading"
    by (rule status_pending) (simp add: sample_bike_def)
  ultimately show ?thesis by simp
qed

text \<open>
  The earlier revision of the classifier has no such test: a unit without bookings is
  \<open>available\<close> on Monday 9 February 2026 and \<open>half\<close> on the Saturday before, and a
  unit marked as loading is classified by its bookings like any other.
\<close>

theorem status_pending_legacy_counterexample:
  "getStatus_legacy (sample_settings [0]) (sample_bike ''v1'' None None False)
     (day_of 2026 2 9) = available
   \<and> getStatus_legacy (sample_settings [0]) (sample_bike ''v1'' None None False)
     (day_of 2026 2 7) = half
   \<and> getStatus_legacy (sample_settings [0])
     (sample_bike ''v1'' None (Some [''2026/02/09'' \<mapsto> JBool True]) True)
     (day_of 2026 2 9) = booked"
  by (simp add: getStatus_legacy_def sample_bike_def isStoreClosed_def isHoliday_entry
      isHalfDay_def sample_weekdays sample_holidays sample_closures
      truthy_isBooked has_booking_def booking_keys_def sample_keys)

text \<open>The layout of the key \<open>yyyy/MM/dd\<close>.\<close>

lemma length_toString_10: "n < 10 \<Longrightarrow> length (toString n) = 1"
  by (simp add: toString.simps)

lemma length_toString_100: "n < 100 \<Longrightarrow> length (toString n) \<le> 2"
  by (subst toString.simps) (simp add: length_toString_10)

lemma length_toString_1000: "n < 1000 \<Longrightarrow> length (toString n) \<le> 3"
proof (subst toString.simps)
  assume "n < 1000"
  then have "n div 10 < 100" by simp
  then have "length (toString (n div 10)) \<le> 2" by (rule length_toString_100)
  then show "length (if n < 10 then [digit_char n]
      else toString (n div 10) @ [digit_char (n mod 10)]) \<le> 3" by simp
qed

lemma length_toString_10000: "n < 10000 \<Longrightarrow> length (toString n) \<le> 4"
proof (subst toString.simps)
  assume "n < 10000"
  then have "n div 10 < 1000" by simp
  then have "length (toString (n div 10)) \<le> 3" by (rule length_toString_1000)
  then show "length (if n < 10 then [digit_char n]
      else toString (n div 10) @ [digit_char (n mod 10)]) \<le> 4" by simp
qed

lemma length_padStart: "length s \<le> k \<Longrightarrow> length (padStart k s) = k"
  by (simp add: padStart_def)

lemma key_layout:
  assumes "getFullYear d < 10000" and "getMonth d < 12" and "getDate d \<le> 31"
  shows "length (format_yyyy d) = 4" and "length (format_MM d) = 2" and "length (format_dd d) = 2"
proof -
  show "length (format_yyyy d) = 4"
    unfolding format_yyyy_def using assms(1) by (intro length_padStart length_toString_10000)
  have "getMonth d + 1 < 100" using assms(2) by simp
  then show "length (format_MM d) = 2"
    unfolding format_MM_def by (intro length_padStart length_toString_100)
  have "getDate d < 100" using assms(3) by simp
  then show "length (format_dd d) = 2"
    unfolding format_dd_def by (intro length_padStart length_toString_100)
qed

text \<open>
  C4. For a unit that is not loading and has its bookings: when the map holds a truthy
  value under the date's key \<open>yyyy/MM/dd\<close>, or under that key followed by \<open>_start\<close>
  or by \<open>_end\<close>, the status is \<open>booked\<close>, whatever the weekday and the closure
  settings are. For a year below 10000 the key is four digits, a slash, two digits, a
  slash and two digits.
\<close>

theorem booked_overrides:
  assumes "\<not> isLoading b" and "bookings b = Some bk"
    and "k = format_slash d \<or> k = format_slash d @ ''_start'' \<or> k = format_slash d @ ''_end''"
    and "bk k = Some v" and "truthy v"
  shows "getStatus gs b d = booked
       \<and> format_slash d = format_yyyy d @ ''/'' @ format_MM d @ ''/'' @ format_dd d
       \<and> (getFullYear d < 10000 \<and> getMonth d < 12 \<and> getDate d \<le> 31 \<longrightarrow>
           length (format_yyyy d) = 4 \<and> length (format_MM d) = 2 \<and> length (format_dd d) = 2)"
proof -
  have "has_booking bk d"
    unfolding has_booking_def booking_keys_def using assms(3,4,5) by auto
  with assms(1,2) have a: "getStatus gs b d = booked" by (simp add: getStatus_loaded)
  have b: "format_slash d = format_yyyy d @ ''/'' @ format_MM d @ ''/'' @ format_dd d"
    by (simp add: format_slash_def)
  have c: "getFullYear d < 10000 \<and> getMonth d < 12 \<and> getDate d \<le> 31 \<longrightarrow>
           length (format_yyyy d) = 4 \<and> length (format_MM d) = 2 \<and> length (format_dd d) = 2"
    using key_layout by blast
  from a b c show ?thesis by blast
qed

theorem booked_overrides_witness:
  "getStatus (sample_settings [0, 6])
     (sample_bike ''v1'' None (Some [''2026/02/07_end'' \<mapsto> JBool True]) False)
     (day_of 2026 2 7) = booked
   \<and> getDay (day_of 2026 2 7) = 6
   \<and> format_slash (day_of 2026 2 7) = ''2026/02/07''"
proof -
  let ?bk = "[''2026/02/07_end'' \<mapsto> JBool True]"
  let ?b = "sample_bike ''v1'' None (Some ?bk) False"
  have "getStatus (sample_settings [0, 6]) ?b (day_of 2026 2 7) = booked"
    by (rule booked_overrides [where k = "''2026/02/07_end''" and v = "JBool True" and bk = ?bk,
          THEN conjunct1])
      (simp_all add: sample_bike_def sample_keys)
  then show ?thesis by (simp add: sample_weekdays sample_keys)
qed

section \<open>Filtering and sorting the fleet\<close>

lemma list_ex_qualifies:
  "list_ex (qualifies gs selectedDates b) dates = free_on_selected gs dates selectedDates b"
  by (auto simp: list_ex_iff qualifies_def free_on_selected_def Let_def)

lemma filteredBikes_filter:
  "filteredBikes gs dates selectedDates bikes =
     (if selectedDates = {} then bikes
      else filter (free_on_selected gs dates selectedDates) bikes)"
  by (simp add: filteredBikes_def list_ex_qualifies)

lemma mset_insert_js: "mset (insert_js cmp x ys) = add_mset x (mset ys)"
  by (induction ys) simp_all

lemma mset_sort_js: "mset (sort_js cmp xs) = mset xs"
  by (induction xs) (simp_all add: mset_insert_js)

lemma set_sort_js: "set (sort_js cmp xs) = set xs"
proof -
  have "set_mset (mset (sort_js cmp xs)) = set_mset (mset xs)"
    by (simp only: mset_sort_js)
  then show ?thesis by simp
qed

lemma insert_js_by_key: "insert_js (\<lambda>a b. f a - f b) x ys = insort_key f x ys"
  by (induction ys) simp_all

lemma sort_js_by_key: "sort_js (\<lambda>a b. f a - f b) xs = sort_key f xs"
  by (induction xs) (simp_all add: insert_js_by_key)

lemma compare_bikes_asc:
  "compare_bikes localeCompare n ''asc'' =
     (\<lambda>a b. getPriceForDuration a n - getPriceForDuration b n)"
  by (simp add: compare_bikes_def fun_eq_iff)

lemma sortedBikes_asc:
  "sortedBikes localeCompare gs dates selectedDates n ''asc'' bikes =
     sort_key (\<lambda>b. getPriceForDuration b n) (filteredBikes gs dates selectedDates bikes)"
  by (simp add: sortedBikes_def compare_bikes_asc sort_js_by_key)

lemma pending_not_free:
  assumes "isLoading b \<or> bookings b = None"
  shows "\<not> free_on_selected gs dates selectedDates b"
  using assms by (simp add: free_on_selected_def getStatus_pending)

text \<open>Sample units and their statuses in the sample week.\<close>

lemma sample_statuses:
  "getStatus (sample_settings [0])
     (sample_bike v ps (Some [''2026/02/07'' \<mapsto> JBool True, ''2026/02/09_start'' \<mapsto> JNum 1]) False)
     (day_of 2026 2 7) = booked"
  "getStatus (sample_settings [0])
     (sample_bike v ps (Some [''2026/02/07'' \<mapsto> JBool True, ''2026/02/09_start'' \<mapsto> JNum 1]) False)
     (day_of 2026 2 8) = closed"
  "getStatus (sample_settings [0])
     (sample_bike v ps (Some [''2026/02/08_end'' \<mapsto> JBool True]) False)
     (day_of 2026 2 7) = half"
  "getStatus (sample_settings [0]) (sample_bike v ps (Some Map.empty) False) (day_of 2026 2 7) = half"
  by (simp_all add: getStatus_loaded sample_bike_def has_booking_def booking_keys_def
      sample_keys sample_weekdays sample_holidays sample_closures)

text \<open>
  C6. With an empty selection every unit is kept. With a selection that is not empty the
  units kept are exactly those free on a selected date, that is, those for which some
  selected date has the status \<open>available\<close> or \<open>half\<close>; they stay in their order. The
  sort that follows rearranges the units kept and neither drops nor adds one.
\<close>

theorem filter_keeps_free_units:
  "(selectedDates = {} \<longrightarrow> filteredBikes gs dates selectedDates bikes = bikes)
   \<and> (selectedDates \<noteq> {} \<longrightarrow>
        filteredBikes gs dates selectedDates bikes =
          filter (free_on_selected gs dates selectedDates) bikes)
   \<and> mset (sortedBikes localeCompare gs dates selectedDates n sortOrder bikes) =
       mset (filteredBikes gs dates selectedDates bikes)"
  by (simp add: filteredBikes_filter sortedBikes_def mset_sort_js)

theorem filter_keeps_free_units_witness:
  "map variantId
     (filteredBikes (sample_settings [0]) sample_week {''2026-02-07'', ''2026-02-08''}
        [sample_bike ''v1'' None
           (Some [''2026/02/07'' \<mapsto> JBool True, ''2026/02/09_start'' \<mapsto> JNum 1]) False,
         sample_bike ''v2'' None (Some [''2026/02/08_end'' \<mapsto> JBool True]) False]) = [''v2'']
   \<and> map variantId
     (filteredBikes (sample_settings [0]) sample_week {}
        [sample_bike ''v1'' None
           (Some [''2026/02/07'' \<mapsto> JBool True, ''2026/02/09_start'' \<mapsto> JNum 1]) False,
         sample_bike ''v2'' None (Some [''2026/02/08_end'' \<mapsto> JBool True]) False])
       = [''v1'', ''v2'']"
proof -
  let ?gs = "sample_settings [0]"
  let ?sel = "{''2026-02-07'', ''2026-02-08''}"
  let ?a = "sample_bike ''v1'' None
           (Some [''2026/02/07'' \<mapsto> JBool True, ''2026/02/09_start'' \<mapsto> JNum 1]) False"
  let ?b = "sample_bike ''v2'' None (Some [''2026/02/08_end'' \<mapsto> JBool True]) False"
  have ne: "?sel \<noteq> {}" by simp
  have fa: "\<not> free_on_selected ?gs sample_week ?sel ?a"
    by (simp add: free_on_selected_def sample_week_def sample_keys sample_statuses)
  have fb: "free_on_selected ?gs sample_week ?sel ?b"
    by (simp add: free_on_selected_def sample_week_def sample_keys sample_statuses)
  have "filteredBikes ?gs sample_week ?sel [?a, ?b] =
      filter (free_on_selected ?gs sample_week ?sel) [?a, ?b]"
    using filter_keeps_free_units [of ?sel ?gs sample_week "[?a, ?b]"] ne by blast
  then have x: "map variantId (filteredBikes ?gs sample_week ?sel [?a, ?b]) = [''v2'']"
    using fa fb by (simp add: sample_bike_def)
  have "filteredBikes ?gs sample_week {} [?a, ?b] = [?a, ?b]"
    using filter_keeps_free_units [of "{}" ?gs sample_week "[?a, ?b]"] by blast
  then have y: "map variantId (filteredBikes ?gs sample_week {} [?a, ?b]) = [''v1'', ''v2'']"
    by (simp add: sample_bike_def)
  from x y show ?thesis by simp
qed

text \<open>
  C7. Under the order \<open>asc\<close> the units come out by ascending price for the duration,
  compared as numbers, and the sort is stable: for every price, the units of that price
  that are kept stand in the result in the order they have in the input list.
\<close>

theorem ascending_price_stable:
  "sorted (map (\<lambda>b. getPriceForDuration b n)
            (sortedBikes localeCompare gs dates selectedDates n ''asc'' bikes))
   \<and> (\<forall>k. filter (\<lambda>b. getPriceForDuration b n = k)
              (sortedBikes localeCompare gs dates selectedDates n ''asc'' bikes) =
            filter (\<lambda>b. getPriceForDuration b n = k)
              (filter (\<lambda>b. selectedDates = {} \<or> free_on_selected gs dates selectedDates b)
                 bikes))"
proof -
  have "filteredBikes gs dates selectedDates bikes =
      filter (\<lambda>b. selectedDates = {} \<or> free_on_selected gs dates selectedDates b) bikes"
    by (simp add: filteredBikes_filter)
  then show ?thesis
    by (simp add: sortedBikes_asc sort_key_stable)
qed

theorem ascending_price_stable_witness:
  "map variantId
     (filter (\<lambda>b. getPriceForDuration b 1 = 110)
        (sortedBikes (\<lambda>a b. 0) (sample_settings [0]) sample_week {} 1 ''asc''
           [sample_bike ''v1'' (Some [\<lparr>days = Days 1, to = Days 6, price = 110\<rparr>]) None True,
            sample_bike ''v2'' (Some [\<lparr>days = Days 1, to = Days 6, price = 90\<rparr>]) None True,
            sample_bike ''v3'' (Some [\<lparr>days = Days 1, to = Days 6, price = 110\<rparr>]) None True]))
     = [''v1'', ''v3'']
   \<and> map variantId
        (sortedBikes (\<lambda>a b. 0) (sample_settings [0]) sample_week {} 1 ''asc''
           [sample_bike ''v1'' (Some [\<lparr>days = Days 1, to = Days 6, price = 110\<rparr>]) None True,
            sample_bike ''v2'' (Some [\<lparr>days = Days 1, to = Days 6, price = 90\<rparr>]) None True,
            sample_bike ''v3'' (Some [\<lparr>days = Days 1, to = Days 6, price = 110\<rparr>]) None True])
     = [''v2'', ''v1'', ''v3'']"
proof -
  let ?a = "sample_bike ''v1'' (Some [\<lparr>days = Days 1, to = Days 6, price = 110\<rparr>]) None True"
  let ?b = "sample_bike ''v2'' (Some [\<lparr>days = Days 1, to = Days 6, price = 90\<rparr>]) None True"
  let ?c = "sample_bike ''v3'' (Some [\<lparr>days = Days 1, to = Days 6, price = 110\<rparr>]) None True"
  let ?gs = "sample_settings [0]"
  have p: "getPriceForDuration ?a 1 = 110" "getPriceForDuration ?b 1 = 90"
    "getPriceForDuration ?c 1 = 110"
    by (simp_all add: getPriceForDuration_def sample_bike_def tier_applies_def weekly_def)
  have f: "filteredBikes ?gs sample_week {} [?a, ?b, ?c] = [?a, ?b, ?c]"
    by (simp add: filteredBikes_def)
  have "filter (\<lambda>b. getPriceForDuration b 1 = 110)
          (sortedBikes (\<lambda>a b. 0) ?gs sample_week {} 1 ''asc'' [?a, ?b, ?c]) =
        filter (\<lambda>b. getPriceForDuration b 1 = 110)
          (filter (\<lambda>b. ({} :: string set) = {} \<or> free_on_selected ?gs sample_week {} b)
             [?a, ?b, ?c])"
    using ascending_price_stable [of 1 "\<lambda>a b. 0" ?gs sample_week "{}" "[?a, ?b, ?c]"]
    by blast
  then have x: "map variantId (filter (\<lambda>b. getPriceForDuration b 1 = 110)
          (sortedBikes (\<lambda>a b. 0) ?gs sample_week {} 1 ''asc'' [?a, ?b, ?c])) = [''v1'', ''v3'']"
    by (simp add: p) (simp add: sample_bike_def)
  have "sortedBikes (\<lambda>a b. 0) ?gs sample_week {} 1 ''asc'' [?a, ?b, ?c] = [?b, ?a, ?c]"
    by (simp add: sortedBikes_def f compare_bikes_asc p)
  then have y: "map variantId (sortedBikes (\<lambda>a b. 0) ?gs sample_week {} 1 ''asc'' [?a, ?b, ?c])
      = [''v2'', ''v1'', ''v3'']"
    by (simp add: sample_bike_def)
  from x y show ?thesis by simp
qed

text \<open>
  C10. When some date is selected, a unit that is loading or has no bookings is not in
  the list shown: on every date its status is \<open>loading\<close>, which is neither
  \<open>available\<close> nor \<open>half\<close>.
\<close>

theorem pending_unit_filtered_out:
  assumes "selectedDates \<noteq> {}" and "isLoading b \<or> bookings b = None"
  shows "b \<notin> set (sortedBikes localeCompare gs dates selectedDates n sortOrder bikes)
       \<and> (\<forall>d. getStatus gs b d = loading)"
proof -
  have "\<not> free_on_selected gs dates selectedDates b"
    using assms(2) by (rule pending_not_free)
  then have "b \<notin> set (filteredBikes gs dates selectedDates bikes)"
    using assms(1) by (simp add: filteredBikes_filter)
  then have "b \<notin> set (sortedBikes localeCompare gs dates selectedDates n sortOrder bikes)"
    by (simp add: sortedBikes_def set_sort_js)
  moreover have "\<forall>d. getStatus gs b d = loading"
    using assms(2) by (simp add: getStatus_pending)
  ultimately show ?thesis by blast
qed

theorem pending_unit_filtered_out_witness:
  "sample_bike ''v3'' None (Some Map.empty) True \<notin>
     set (sortedBikes (\<lambda>a b. 0) (sample_settings [0]) sample_week {''2026-02-07''} 1 ''asc''
            [sample_bike ''v3'' None (Some Map.empty) True,
             sample_bike ''v4'' None (Some Map.empty) False])
   \<and> map variantId
       (sortedBikes (\<lambda>a b. 0) (sample_settings [0]) sample_week {''2026-02-07''} 1 ''asc''
            [sample_bike ''v3'' None (Some Map.empty) True,
             sample_bike ''v4'' None (Some Map.empty) False]) = [''v4'']"
proof -
  let ?gs = "sample_settings [0]"
  let ?sel = "{''2026-02-07''}"
  let ?c = "sample_bike ''v3'' None (Some Map.empty) True"
  let ?e = "sample_bike ''v4'' None (Some Map.empty) False"
  have ne: "?sel \<noteq> {}" by simp
  have l: "isLoading ?c \<or> bookings ?c = None" by (simp add: sample_bike_def)
  have x: "?c \<notin> set (sortedBikes (\<lambda>a b. 0) ?gs sample_week ?sel 1 ''asc'' [?c, ?e])"
    using pending_unit_filtered_out [OF ne l] by blast
  have fc: "\<not> free_on_selected ?gs sample_week ?sel ?c"
    using l by (rule pending_not_free)
  have fe: "free_on_selected ?gs sample_week ?sel ?e"
    by (simp add: free_on_selected_def sample_week_def sample_keys sample_statuses)
  have "filteredBikes ?gs sample_week ?sel [?c, ?e] = [?e]"
    using fc fe by (simp add: filteredBikes_filter)
  then have y: "map variantId (sortedBikes (\<lambda>a b. 0) ?gs sample_week ?sel 1 ''asc'' [?c, ?e])
      = [''v4'']"
    by (simp add: sortedBikes_def sample_bike_def)
  from x y show ?thesis by simp
qed

section \<open>Deduplication of the catalog\<close>

lemma build_bike_variantId: "build_bike im p vid vd = Some b \<Longrightarrow> variantId b = vid"
  by (auto simp: build_bike_def split: option.splits)

subsection \<open>Identifiers are never repeated\<close>

lemma add_variants_distinct:
  "distinct_acc (bikes, seen) \<Longrightarrow> distinct_acc (add_variants im p vs (bikes, seen))"
proof (induction vs arbitrary: bikes seen)
  case Nil
  then show ?case by simp
next
  case (Cons x vs)
  obtain vid vd where x: "x = (vid, vd)" by (cases x)
  show ?case
  proof (cases "vid = ''product'' \<or> vid \<in> seen")
    case True
    then show ?thesis using Cons x by auto
  next
    case False
    show ?thesis
    proof (cases "build_bike im p vid vd")
      case None
      have "distinct_acc (bikes, insert vid seen)"
        using Cons.prems by (auto simp: distinct_acc_def)
      then show ?thesis using False None x by simp
    next
      case (Some b)
      then have "variantId b = vid" by (rule build_bike_variantId)
      then have "distinct_acc (bikes @ [b], insert vid seen)"
        using Cons.prems False by (auto simp: distinct_acc_def)
      then have "distinct_acc (add_variants im p vs (bikes @ [b], insert vid seen))"
        by (rule Cons.IH)
      then show ?thesis using False Some x by simp
    qed
  qed
qed

lemma add_products_distinct:
  "distinct_acc st \<Longrightarrow> distinct_acc (add_products im exampleData st)"
proof (induction im exampleData st rule: add_products.induct)
  case (1 im st)
  then show ?case by simp
next
  case (2 im key rest st)
  then show ?case by simp
next
  case (3 im key p rest st)
  show ?case
  proof (cases "variantStock p")
    case None
    then show ?thesis using 3 by simp
  next
    case (Some variants)
    obtain bikes seen where st: "st = (bikes, seen)" by (cases st)
    have "distinct_acc (add_variants im p variants st)"
      using "3.prems" unfolding st by (rule add_variants_distinct)
    with Some have "distinct_acc (add_products im rest (add_variants im p variants st))"
      by (rule "3.IH"(2))
    then show ?thesis using Some by simp
  qed
qed

lemma extract_distinct: "distinct (map variantId (extractBikeMetadata exampleData im))"
proof -
  have "distinct_acc ([], {})" by (simp add: distinct_acc_def)
  then have "distinct_acc (add_products im exampleData ([], {}))"
    by (rule add_products_distinct)
  then show ?thesis by (simp add: extractBikeMetadata_def distinct_acc_def)
qed

lemma fetch_ids:
  "map variantId (fetchAvailabilityData fetchBookings exampleData im) =
     map variantId (extractBikeMetadata exampleData im)"
  by (simp add: fetchAvailabilityData_def comp_def)

lemma only_one_of_its_id:
  assumes "distinct (map f xs)" and "x \<in> set xs"
  shows "filter (\<lambda>y. f y = f x) xs = [x]"
  using assms
proof (induction xs)
  case Nil
  then show ?case by simp
next
  case (Cons a xs)
  show ?case
  proof (cases "a = x")
    case True
    with Cons.prems(1) have "f x \<notin> f ` set xs" by simp
    then have "\<forall>y \<in> set xs. f y \<noteq> f x" by (metis imageI)
    then have "filter (\<lambda>y. f y = f x) xs = []" by (simp add: filter_empty_conv)
    with True show ?thesis by simp
  next
    case False
    with Cons.prems have "x \<in> set xs" and "f a \<noteq> f x" and "distinct (map f xs)"
      by auto
    with Cons.IH show ?thesis by simp
  qed
qed

subsection \<open>The bikes only grow, the set holds only identifiers that were met\<close>

lemma add_variants_grows: "set bikes \<subseteq> set (fst (add_variants im p vs (bikes, seen)))"
proof (induction vs arbitrary: bikes seen)
  case Nil
  then show ?case by simp
next
  case (Cons x vs)
  obtain vid vd where x: "x = (vid, vd)" by (cases x)
  show ?case
  proof (cases "build_bike im p vid vd")
    case None
    then show ?thesis using x Cons.IH [of bikes seen] by simp
  next
    case (Some b)
    have "set bikes \<subseteq> set (bikes @ [b])" by auto
    also have "\<dots> \<subseteq> set (fst (add_variants im p vs (bikes @ [b], insert vid seen)))"
      by (rule Cons.IH)
    finally show ?thesis using x Some Cons.IH [of bikes seen] by simp
  qed
qed

lemma add_products_grows: "set (fst st) \<subseteq> set (fst (add_products im exampleData st))"
proof (induction im exampleData st rule: add_products.induct)
  case (1 im st)
  then show ?case by simp
next
  case (2 im key rest st)
  then show ?case by simp
next
  case (3 im key p rest st)
  show ?case
  proof (cases "variantStock p")
    case None
    then show ?thesis using 3 by simp
  next
    case (Some variants)
    obtain bikes seen where st: "st = (bikes, seen)" by (cases st)
    have "set (fst st) \<subseteq> set (fst (add_variants im p variants st))"
      unfolding st using add_variants_grows [of bikes im p variants seen] by simp
    also have "\<dots> \<subseteq> set (fst (add_products im rest (add_variants im p variants st)))"
      using Some by (rule "3.IH"(2))
    finally show ?thesis using Some by simp
  qed
qed

lemma add_variants_seen:
  "snd (add_variants im p vs (bikes, seen)) \<subseteq> seen \<union> record_id ` set (variants_of p vs)"
proof (induction vs arbitrary: bikes seen)
  case Nil
  then show ?case by simp
next
  case (Cons x vs)
  obtain vid vd where x: "x = (vid, vd)" by (cases x)
  show ?case
  proof (cases "vid = ''product''")
    case True
    then have "variants_of p (x # vs) = variants_of p vs"
      using x by (simp add: variants_of_def)
    then show ?thesis using True x Cons.IH [of bikes seen] by simp
  next
    case False
    then have vs: "variants_of p (x # vs) = (p, vid, vd) # variants_of p vs"
      using x by (simp add: variants_of_def)
    show ?thesis
    proof (cases "vid \<in> seen")
      case True
      then show ?thesis using False x vs Cons.IH [of bikes seen] by auto
    next
      case unseen: False
      show ?thesis
      proof (cases "build_bike im p vid vd")
        case None
        then show ?thesis using False unseen x vs by (auto simp: record_id_def)
      next
        case (Some b)
        then show ?thesis
          using False unseen x vs Cons.IH [of "bikes @ [b]" "insert vid seen"]
          by (auto simp: record_id_def)
      qed
    qed
  qed
qed

lemma add_products_seen:
  "snd (add_products im exampleData st) \<subseteq> snd st \<union> record_id ` set (variant_records exampleData)"
proof (induction im exampleData st rule: add_products.induct)
  case (1 im st)
  then show ?case by simp
next
  case (2 im key rest st)
  then show ?case by (simp add: variant_records_def)
next
  case (3 im key p rest st)
  show ?case
  proof (cases "variantStock p")
    case None
    then show ?thesis using 3 by (simp add: variant_records_def)
  next
    case (Some variants)
    obtain bikes seen where st: "st = (bikes, seen)" by (cases st)
    have split: "variant_records ((key, Some p) # rest) =
        variants_of p variants @ variant_records rest"
      using Some by (simp add: variant_records_def)
    have "snd (add_products im rest (add_variants im p variants st)) \<subseteq>
        snd (add_variants im p variants st) \<union> record_id ` set (variant_records rest)"
      using Some by (rule "3.IH"(2))
    moreover have "snd (add_variants im p variants st) \<subseteq>
        snd st \<union> record_id ` set (variants_of p variants)"
      unfolding st using add_variants_seen [of im p variants bikes seen] by simp
    ultimately show ?thesis using Some split by auto
  qed
qed

lemma add_products_append:
  "add_products im (xs @ ys) st = add_products im ys (add_products im xs st)"
  by (induction im xs st rule: add_products.induct) (simp_all split: option.splits)

subsection \<open>A first occurrence that is reached and builds is kept\<close>

lemma add_variants_reaches:
  assumes "\<forall>(v, d) \<in> set vpre. v = ''product'' \<or> v \<in> seen \<or> build_bike im p v d \<noteq> None"
    and "vid \<noteq> ''product''" and "vid \<notin> seen" and "vid \<notin> fst ` set vpre"
    and "build_bike im p vid vd = Some b"
  shows "b \<in> set (fst (add_variants im p (vpre @ (vid, vd) # vpost) (bikes, seen)))"
  using assms(1,3,4)
proof (induction vpre arbitrary: bikes seen)
  case Nil
  have "b \<in> set (bikes @ [b])" by simp
  then have "b \<in> set (fst (add_variants im p vpost (bikes @ [b], insert vid seen)))"
    using add_variants_grows [of "bikes @ [b]" im p vpost "insert vid seen"] by blast
  then show ?case using Nil assms(2,5) by simp
next
  case (Cons x vpre)
  obtain v d where x: "x = (v, d)" by (cases x)
  from Cons.prems(3) x have ne: "vid \<noteq> v" and later: "vid \<notin> fst ` set vpre" by auto
  from Cons.prems(1) x
  have here: "v = ''product'' \<or> v \<in> seen \<or> build_bike im p v d \<noteq> None"
    and rest: "\<forall>(v, d) \<in> set vpre. v = ''product'' \<or> v \<in> seen \<or> build_bike im p v d \<noteq> None"
    by auto
  show ?case
  proof (cases "v = ''product'' \<or> v \<in> seen")
    case True
    then show ?thesis
      using x Cons.IH [OF rest Cons.prems(2) later, of bikes] by auto
  next
    case False
    with here obtain b' where b': "build_bike im p v d = Some b'" by auto
    have rest': "\<forall>(v', d') \<in> set vpre.
        v' = ''product'' \<or> v' \<in> insert v seen \<or> build_bike im p v' d' \<noteq> None"
      using rest by auto
    have "vid \<notin> insert v seen" using ne Cons.prems(2) by simp
    then have "b \<in> set (fst (add_variants im p (vpre @ (vid, vd) # vpost)
        (bikes @ [b'], insert v seen)))"
      using rest' later by (intro Cons.IH)
    then show ?thesis using False x b' by simp
  qed
qed

lemma first_occurrence_kept:
  assumes split: "exampleData = before @ (key, Some p) # after"
    and stock: "variantStock p = Some (vpre @ (vid, vd) # vpost)"
    and variant: "vid \<noteq> ''product''"
    and first: "vid \<notin> record_id ` set (variant_records before)" "vid \<notin> fst ` set vpre"
    and reached: "\<forall>(v, d) \<in> set vpre.
        v = ''product'' \<or> v \<in> seen_before im before \<or> build_bike im p v d \<noteq> None"
    and built: "build_bike im p vid vd = Some b"
  shows "filter (\<lambda>x. variantId x = vid) (extractBikeMetadata exampleData im) = [b]"
proof -
  obtain bikes0 seen0 where st0: "add_products im before ([], {}) = (bikes0, seen0)"
    by (cases "add_products im before ([], {})")
  then have seen0: "seen_before im before = seen0" by (simp add: seen_before_def)
  have "seen0 \<subseteq> record_id ` set (variant_records before)"
    using add_products_seen [of im before "([], {})"] st0 by simp
  with first(1) have unseen: "vid \<notin> seen0" by blast
  let ?st1 = "add_variants im p (vpre @ (vid, vd) # vpost) (bikes0, seen0)"
  have "b \<in> set (fst ?st1)"
    using reached variant unseen first(2) built unfolding seen0
    by (rule add_variants_reaches)
  then have "b \<in> set (fst (add_products im after ?st1))"
    using add_products_grows [of ?st1 im after] by blast
  moreover have "extractBikeMetadata exampleData im = fst (add_products im after ?st1)"
    by (simp add: extractBikeMetadata_def split add_products_append st0 stock)
  ultimately have "b \<in> set (extractBikeMetadata exampleData im)" by simp
  with extract_distinct [of exampleData im]
  have "filter (\<lambda>x. variantId x = variantId b) (extractBikeMetadata exampleData im) = [b]"
    by (rule only_one_of_its_id)
  with build_bike_variantId [OF built] show ?thesis by simp
qed

text \<open>
  C8, as the code has it. In every catalog no two units of the list share an identifier,
  and fetching the bookings changes no identifier. A variant record that is the first of
  its identifier in source order gives the one and only unit of that identifier, the
  unit built from that record, as soon as the extraction reaches it and it builds: it
  builds, and each variant before it in its own product either is the entry
  \<open>product\<close>, or has an identifier already in \<open>seenVariantIds\<close>, or builds. The
  later records of the identifier give no unit.
\<close>

theorem catalog_deduplicated:
  "distinct (map variantId (extractBikeMetadata exampleData im))
   \<and> map variantId (fetchAvailabilityData fetchBookings exampleData im) =
       map variantId (extractBikeMetadata exampleData im)
   \<and> (\<forall>before key p after vpre vid vd vpost.
        exampleData = before @ (key, Some p) # after \<and>
        variantStock p = Some (vpre @ (vid, vd) # vpost) \<and>
        vid \<noteq> ''product'' \<and>
        vid \<notin> record_id ` set (variant_records before) \<and>
        vid \<notin> fst ` set vpre \<and>
        (\<forall>(v, d) \<in> set vpre.
            v = ''product'' \<or> v \<in> seen_before im before \<or> build_bike im p v d \<noteq> None) \<and>
        build_bike im p vid vd \<noteq> None \<longrightarrow>
        (\<exists>b. build_bike im p vid vd = Some b \<and>
             filter (\<lambda>x. variantId x = vid) (extractBikeMetadata exampleData im) = [b]))"
proof (intro conjI allI impI)
  show "distinct (map variantId (extractBikeMetadata exampleData im))"
    by (rule extract_distinct)
  show "map variantId (fetchAvailabilityData fetchBookings exampleData im) =
      map variantId (extractBikeMetadata exampleData im)"
    by (rule fetch_ids)
  fix before key p after vpre vid vd vpost
  assume h: "exampleData = before @ (key, Some p) # after \<and>
        variantStock p = Some (vpre @ (vid, vd) # vpost) \<and>
        vid \<noteq> ''product'' \<and>
        vid \<notin> record_id ` set (variant_records before) \<and>
        vid \<notin> fst ` set vpre \<and>
        (\<forall>(v, d) \<in> set vpre.
            v = ''product'' \<or> v \<in> seen_before im before \<or> build_bike im p v d \<noteq> None) \<and>
        build_bike im p vid vd \<noteq> None"
  note h1 = h [THEN conjunct1]
    and h2 = h [THEN conjunct2, THEN conjunct1]
    and h3 = h [THEN conjunct2, THEN conjunct2, THEN conjunct1]
    and h4 = h [THEN conjunct2, THEN conjunct2, THEN conjunct2, THEN conjunct1]
    and h5 = h [THEN conjunct2, THEN conjunct2, THEN conjunct2, THEN conjunct2, THEN conjunct1]
    and h6 = h [THEN conjunct2, THEN conjunct2, THEN conjunct2, THEN conjunct2, THEN conjunct2,
      THEN conjunct1]
    and h7 = h [THEN conjunct2, THEN conjunct2, THEN conjunct2, THEN conjunct2, THEN conjunct2,
      THEN conjunct2]
  from h7 obtain b where b: "build_bike im p vid vd = Some b" by blast
  from h1 h2 h3 h4 h5 h6 b
  have "filter (\<lambda>x. variantId x = vid) (extractBikeMetadata exampleData im) = [b]"
    by (rule first_occurrence_kept)
  with b show "\<exists>b. build_bike im p vid vd = Some b \<and>
      filter (\<lambda>x. variantId x = vid) (extractBikeMetadata exampleData im) = [b]"
    by blast
qed

theorem catalog_deduplicated_witness:
  "map handle
     (filter (\<lambda>x. variantId x = ''111'')
       (extractBikeMetadata
        [(''p1'', Some (sample_product ''yamaha-nmax-155-rental''
                    [(''product'', None), (''111'', Some \<lparr>prices = Some sample_tiers\<rparr>)])),
         (''p2'', None),
         (''p3'', Some (sample_product ''honda-cb500x-rental''
                    [(''111'', Some \<lparr>prices = None\<rparr>), (''999'', None),
                     (''222'', Some \<lparr>prices = None\<rparr>)]))]
        Map.empty)) = [''yamaha-nmax-155-rental'']
   \<and> map variantId
     (extractBikeMetadata
        [(''p1'', Some (sample_product ''yamaha-nmax-155-rental''
                    [(''product'', None), (''111'', Some \<lparr>prices = Some sample_tiers\<rparr>)])),
         (''p2'', None),
         (''p3'', Some (sample_product ''honda-cb500x-rental''
                    [(''111'', Some \<lparr>prices = None\<rparr>), (''999'', None),
                     (''222'', Some \<lparr>prices = None\<rparr>)]))]
        Map.empty) = [''111'']"
proof -
  let ?v1 = "Some \<lparr>prices = Some sample_tiers\<rparr>"
  let ?v0 = "Some \<lparr>prices = None :: tier list option\<rparr>"
  let ?p1 = "sample_product ''yamaha-nmax-155-rental'' [(''product'', None), (''111'', ?v1)]"
  let ?p3 = "sample_product ''honda-cb500x-rental''
               [(''111'', ?v0), (''999'', None), (''222'', ?v0)]"
  let ?after = "[(''p2'', None), (''p3'', Some ?p3)]"
  let ?data = "(''p1'', Some ?p1) # ?after"
  have hyp: "?data = [] @ (''p1'', Some ?p1) # ?after \<and>
      variantStock ?p1 = Some ([(''product'', None)] @ (''111'', ?v1) # []) \<and>
      ''111'' \<noteq> ''product'' \<and>
      ''111'' \<notin> record_id ` set (variant_records []) \<and>
      ''111'' \<notin> fst ` set [(''product'', None :: variantData option)] \<and>
      (\<forall>(v, d) \<in> set [(''product'', None :: variantData option)].
          v = ''product'' \<or> v \<in> seen_before Map.empty [] \<or>
          build_bike Map.empty ?p1 v d \<noteq> None) \<and>
      build_bike Map.empty ?p1 ''111'' ?v1 \<noteq> None"
    by (simp add: sample_product_def variant_records_def build_bike_def)
  note all = catalog_deduplicated [of ?data Map.empty "\<lambda>b. None",
      THEN conjunct2, THEN conjunct2]
  note inst = all [THEN spec [where x = "[]"], THEN spec [where x = "''p1''"],
      THEN spec [where x = ?p1], THEN spec [where x = ?after],
      THEN spec [where x = "[(''product'', None)]"], THEN spec [where x = "''111''"],
      THEN spec [where x = ?v1], THEN spec [where x = "[]"], THEN mp, OF hyp]
  from inst obtain b where b: "build_bike Map.empty ?p1 ''111'' ?v1 = Some b"
    and one: "filter (\<lambda>x. variantId x = ''111'') (extractBikeMetadata ?data Map.empty) = [b]"
    by blast
  from b have "handle b = ''yamaha-nmax-155-rental''"
    by (auto simp: build_bike_def sample_product_def)
  with one have x: "map handle (filter (\<lambda>x. variantId x = ''111'')
      (extractBikeMetadata ?data Map.empty)) = [''yamaha-nmax-155-rental'']"
    by simp
  have y: "map variantId (extractBikeMetadata ?data Map.empty) = [''111'']"
    by (simp add: extractBikeMetadata_def sample_product_def build_bike_def)
  from x y show ?thesis by simp
qed

text \<open>
  A first record that does not build (a null variant) still puts its identifier into the
  set of those seen, so the later record of that identifier is skipped as well: two
  records share the identifier and the list holds no unit of it.
\<close>

theorem catalog_lost_identifier_counterexample:
  "extractBikeMetadata
     [(''p1'', Some (sample_product ''yamaha-nmax-155-rental'' [(''111'', None)])),
      (''p3'', Some (sample_product ''honda-cb500x-rental''
                 [(''111'', Some \<lparr>prices = None\<rparr>)]))]
     Map.empty = []
   \<and> map record_id (variant_records
     [(''p1'', Some (sample_product ''yamaha-nmax-155-rental'' [(''111'', None)])),
      (''p3'', Some (sample_product ''honda-cb500x-rental''
                 [(''111'', Some \<lparr>prices = None\<rparr>)]))]) = [''111'', ''111'']"
  by (simp add: extractBikeMetadata_def sample_product_def build_bike_def
      variant_records_def variants_of_def record_id_def)

end
